theory Spec2Isabelle
  imports Complex_Main "HOL-Library.Word"
begin

section \<open>The step ticker of Smoothieware (src/libs/StepTicker.cpp)\<close>

text \<open>
  The theory embeds the member functions of the class StepTicker: the timer interrupt
  handler \<open>TIMER0_IRQHandler\<close> (the tick engine), \<open>copy_block\<close>, \<open>unstep_tick\<close>,
  \<open>PendSV_IRQHandler\<close> and \<open>register_motor\<close>.

  Numbers. The tick counters and step counts are \<open>uint32_t\<close>: 32-bit words, whose
  addition wraps. The rates and accumulators are C \<open>float\<close>s. They are kept abstract:
  the type \<open>'f\<close> only has to offer the operations the code applies to a float
  (\<open>0\<close>, \<open>1\<close>, \<open>+\<close>, \<open>-\<close>, unary minus, \<open>*\<close>, \<open>/\<close>, \<open>\<le>\<close>), and \<^emph>\<open>no law\<close> about
  them is assumed unless a theorem names it as a hypothesis. The conversion of an
  unsigned integer to a float is the parameter \<open>u2f\<close>. Every theorem therefore holds
  for IEEE single precision with its rounding, infinities and NaNs as well as for exact
  rational or real arithmetic, which the concrete evaluations below use.
\<close>

type_synonym u32 = "32 word"

subsection \<open>Data\<close>

text \<open>
  Modelled from the spec: the declaration of Block is in Block.h, which is not among the
  sources. The fields are those that \<open>copy_block\<close> reads, with the meaning of section 3
  of the specification: tick indices and step counts are unsigned 32-bit integers, rates
  are floats, \<open>steps\<close> and \<open>direction_bits\<close> are indexed by the motor.
\<close>

record 'f block =
  accelerate_until :: u32
  decelerate_after :: u32
  total_move_ticks :: u32
  initial_rate :: 'f
  maximum_rate :: 'f
  acceleration_per_tick :: 'f
  deceleration_per_tick :: 'f
  steps_event_count :: u32
  steps :: "nat \<Rightarrow> u32"
  direction_bits :: "nat \<Rightarrow> bool"

text \<open>
  Modelled from the spec: the member \<open>block_info\<close> is declared in StepTicker.h, which is
  not among the sources. Its fields are the five that \<open>copy_block\<close> writes (lines
  226-230); the prefix \<open>bi_\<close> keeps them apart from the fields of the block.
\<close>

record 'f block_info_t =
  bi_accelerate_until :: u32
  bi_decelerate_after :: u32
  bi_maximum_rate :: 'f
  bi_deceleration_per_tick :: 'f
  bi_total_move_ticks :: u32

text \<open>
  Modelled from the spec: the element type of the array \<open>tick_info\<close> is declared in
  StepTicker.h, which is not among the sources. Its fields are the seven that the
  handler and \<open>copy_block\<close> use.
\<close>

record 'f tickinfo =
  steps_per_tick :: 'f
  counter :: 'f
  acceleration_change :: 'f
  axis_ratio :: 'f
  steps_to_move :: u32
  step_count :: u32
  next_accel_event :: u32

text \<open>
  What the code does to the world outside the object, in the order it does it: the
  calls \<open>motor[m]->step()\<close>, \<open>motor[m]->unstep()\<close> and \<open>motor[m]->set_direction(bit)\<close>
  through slot \<open>m\<close> of the motor table, the acknowledgement of the timer interrupt
  (\<open>LPC_TIM0->IR |= 1\<close>), the reset and restart of the unstep timer
  (\<open>LPC_TIM1->TCR = 3; LPC_TIM1->TCR = 1\<close>), the request of the PendSV interrupt
  (\<open>SCB->ICSR = 0x10000000\<close>) and the call of the completion callback \<open>finished_fnc\<close>.
\<close>

datatype event =
    MotorStep nat
  | MotorUnstep nat
  | MotorSetDirection nat bool
  | Tim0Ack
  | Tim1Restart
  | PendSVSet
  | FinishedCall

text \<open>
  The object. Modelled from the spec: the class declaration is in StepTicker.h, which is
  not among the sources; the members are those StepTicker.cpp uses. The arrays \<open>motor\<close>
  and \<open>tick_info\<close> are functions of the index (a store: a write changes one cell), the
  bit set \<open>unstep\<close> is the set of the indices whose bit is set, the mailbox
  \<open>next_block\<close> is \<open>None\<close> for \<open>nullptr\<close>, \<open>finished_fnc\<close> says whether a callback is
  registered. \<open>num_motors\<close> and the atomic counter \<open>do_move_finished\<close> are natural
  numbers: their widths are in the absent header, and the code increments the first
  only in \<open>register_motor\<close> and decrements the second only when it is positive.
  \<open>current_tick\<close> is the static local variable of the handler, \<open>trace\<close> the effects so
  far, oldest first.
\<close>

record 'f stepticker =
  frequency :: 'f
  num_motors :: nat
  motor :: "nat \<Rightarrow> nat"
  unstep :: "nat set"
  tick_info :: "nat \<Rightarrow> 'f tickinfo"
  block_info :: "'f block_info_t"
  next_block :: "'f block option"
  move_issued :: bool
  do_move_finished :: nat
  finished_fnc :: bool
  current_tick :: u32
  trace :: "event list"

definition emit :: "event \<Rightarrow> 'f stepticker \<Rightarrow> 'f stepticker" where
  "emit e s = s\<lparr>trace := trace s @ [e]\<rparr>"

subsection \<open>unstep_tick (lines 85-93)\<close>

definition unstep_motor :: "nat \<Rightarrow> 'f stepticker \<Rightarrow> 'f stepticker" where
  "unstep_motor i s = (if i \<in> unstep s then emit (MotorUnstep i) s else s)"

definition unstep_tick :: "'f stepticker \<Rightarrow> 'f stepticker" where
  "unstep_tick s = (fold unstep_motor [0..<num_motors s] s)\<lparr>unstep := {}\<rparr>"

subsection \<open>PendSV_IRQHandler (lines 113-129)\<close>

definition PendSV_IRQHandler :: "'f stepticker \<Rightarrow> 'f stepticker" where
  "PendSV_IRQHandler s =
     (if do_move_finished s > 0 then
        let s1 = s\<lparr>do_move_finished := do_move_finished s - 1\<rparr>
        in if finished_fnc s1 then emit FinishedCall s1 else s1
      else s)"

subsection \<open>copy_block (lines 224-263)\<close>

text \<open>The axis ratio of motor \<open>m\<close>: \<open>inv * steps\<close> with \<open>inv = 1.0F / steps_event_count\<close>.\<close>

definition aratio :: "(u32 \<Rightarrow> 'f::{one,times,inverse}) \<Rightarrow> 'f block \<Rightarrow> nat \<Rightarrow> 'f" where
  "aratio u2f b m = (1 / u2f (steps_event_count b)) * u2f (steps b m)"

text \<open>The tick info of a motor with \<open>steps \<noteq> 0\<close>, lines 241-260.\<close>

definition init_tickinfo ::
  "(u32 \<Rightarrow> 'f::{zero,one,times,inverse,uminus}) \<Rightarrow> 'f \<Rightarrow> 'f block \<Rightarrow> nat \<Rightarrow> 'f tickinfo \<Rightarrow> 'f tickinfo" where
  "init_tickinfo u2f freq b m ti0 =
     (let ti = ti0\<lparr>steps_per_tick := (initial_rate b * aratio u2f b m) / freq,
                    counter := 0,
                    axis_ratio := aratio u2f b m,
                    step_count := 0,
                    next_accel_event := total_move_ticks b + 1,
                    acceleration_change := 0\<rparr>;
          ti1 = (if accelerate_until b \<noteq> 0 then
                   ti\<lparr>next_accel_event := accelerate_until b,
                      acceleration_change := acceleration_per_tick b\<rparr>
                 else if decelerate_after b = 0 then
                   ti\<lparr>acceleration_change := - deceleration_per_tick b\<rparr>
                 else if decelerate_after b \<noteq> total_move_ticks b then
                   ti\<lparr>next_accel_event := decelerate_after b\<rparr>
                 else ti)
      in ti1\<lparr>acceleration_change := acceleration_change ti1 * aratio u2f b m\<rparr>)"

text \<open>The body of the loop over the motors, lines 234-260.\<close>

definition copy_motor ::
  "(u32 \<Rightarrow> 'f::{zero,one,times,inverse,uminus}) \<Rightarrow> 'f block \<Rightarrow> nat \<Rightarrow> 'f stepticker \<Rightarrow> 'f stepticker" where
  "copy_motor u2f b m s =
     (let s1 = s\<lparr>tick_info := (tick_info s)(m := (tick_info s m)\<lparr>steps_to_move := steps b m\<rparr>)\<rparr>
      in if steps b m = 0 then s1
         else
           let s2 = emit (MotorSetDirection m (direction_bits b m)) s1
           in s2\<lparr>tick_info :=
                   (tick_info s2)(m := init_tickinfo u2f (frequency s2) b m (tick_info s2 m))\<rparr>)"

definition copy_block ::
  "(u32 \<Rightarrow> 'f::{zero,one,times,inverse,uminus}) \<Rightarrow> 'f block \<Rightarrow> 'f stepticker \<Rightarrow> 'f stepticker" where
  "copy_block u2f b s =
     (let s1 = s\<lparr>block_info :=
                   \<lparr>bi_accelerate_until = accelerate_until b,
                    bi_decelerate_after = decelerate_after b,
                    bi_maximum_rate = maximum_rate b,
                    bi_deceleration_per_tick = deceleration_per_tick b,
                    bi_total_move_ticks = total_move_ticks b\<rparr>\<rparr>;
          s2 = fold (copy_motor u2f b) [0..<num_motors s1] s1
      in s2\<lparr>move_issued := True\<rparr>)"

subsection \<open>register_motor (lines 266-270)\<close>

text \<open>
  \<open>motor[num_motors++] = m; return num_motors - 1;\<close> The function has no other
  statement: it neither tests \<open>num_motors\<close> against the size of the table nor has a
  way to report a failure. The table is a store indexed by the natural numbers, so a
  write at or beyond the capacity of the array is a write to a cell past the table.
\<close>

definition register_motor :: "nat \<Rightarrow> 'f stepticker \<Rightarrow> nat \<times> 'f stepticker" where
  "register_motor h s =
     (let s1 = s\<lparr>motor := (motor s)(num_motors s := h), num_motors := num_motors s + 1\<rparr>
      in (num_motors s1 - 1, s1))"

subsection \<open>TIMER0_IRQHandler (lines 133-221)\<close>

text \<open>Line 151: the rate takes up the acceleration of this tick.\<close>

definition accelerate :: "'f::plus tickinfo \<Rightarrow> 'f tickinfo" where
  "accelerate ti = ti\<lparr>steps_per_tick := steps_per_tick ti + acceleration_change ti\<rparr>"

text \<open>Lines 153-167: the change of phase at \<open>next_accel_event\<close>.\<close>

definition accel_event ::
  "u32 \<Rightarrow> 'f block_info_t \<Rightarrow> 'f::{zero,times,inverse,uminus} \<Rightarrow> 'f tickinfo \<Rightarrow> 'f tickinfo" where
  "accel_event ct bi freq ti =
     (if ct = next_accel_event ti then
        let ti1 =
              (if ct = bi_accelerate_until bi then
                 let a = ti\<lparr>acceleration_change := 0\<rparr>
                 in if bi_decelerate_after bi < bi_total_move_ticks bi then
                      let d = a\<lparr>next_accel_event := bi_decelerate_after bi\<rparr>
                      in if ct \<noteq> bi_decelerate_after bi then
                           d\<lparr>steps_per_tick := (axis_ratio d * bi_maximum_rate bi) / freq\<rparr>
                         else d
                    else a
               else ti)
        in if ct = bi_decelerate_after bi then
             ti1\<lparr>acceleration_change := (- bi_deceleration_per_tick bi) * axis_ratio ti1\<rparr>
           else ti1
      else ti)"

text \<open>Lines 170-173: the guard against rounding errors.\<close>

definition rounding_guard :: "'f::{zero,one,ord} tickinfo \<Rightarrow> 'f tickinfo" where
  "rounding_guard ti =
     (if steps_per_tick ti \<le> 0 then ti\<lparr>counter := 1, steps_per_tick := 0\<rparr> else ti)"

text \<open>
  Lines 175-190: the accumulator, and the step when it reaches 1. The result says
  whether the motor is stepped (lines 182 and 184 run) and gives the new tick info.
\<close>

definition issue_step :: "'f::{one,plus,minus,ord} tickinfo \<Rightarrow> bool \<times> 'f tickinfo" where
  "issue_step ti =
     (let ti1 = ti\<lparr>counter := counter ti + steps_per_tick ti\<rparr>
      in if 1 \<le> counter ti1 then
           let ti2 = ti1\<lparr>counter := counter ti1 - 1, step_count := step_count ti1 + 1\<rparr>
           in (True, if step_count ti2 = steps_to_move ti2 then ti2\<lparr>steps_to_move := 0\<rparr> else ti2)
         else (False, ti1))"

text \<open>Lines 151-190 for one active motor.\<close>

definition tick_motor ::
  "u32 \<Rightarrow> 'f block_info_t \<Rightarrow> 'f::{zero,one,plus,minus,uminus,times,inverse,ord} \<Rightarrow> 'f tickinfo
     \<Rightarrow> bool \<times> 'f tickinfo" where
  "tick_motor ct bi freq ti = issue_step (rounding_guard (accel_event ct bi freq (accelerate ti)))"

text \<open>
  The body of the loop over the motors, lines 148-190; the first component is the local
  variable \<open>still_moving\<close>.
\<close>

fun for_motor ::
  "nat \<Rightarrow> bool \<times> 'f::{zero,one,plus,minus,uminus,times,inverse,ord} stepticker
     \<Rightarrow> bool \<times> 'f stepticker" where
  "for_motor m (still_moving, s) =
     (if steps_to_move (tick_info s m) = 0 then (still_moving, s)
      else
        let r = tick_motor (current_tick s) (block_info s) (frequency s) (tick_info s m);
            s1 = s\<lparr>tick_info := (tick_info s)(m := snd r)\<rparr>
        in (True, if fst r then (emit (MotorStep m) s1)\<lparr>unstep := insert m (unstep s1)\<rparr> else s1))"

definition motor_loop ::
  "'f::{zero,one,plus,minus,uminus,times,inverse,ord} stepticker \<Rightarrow> bool \<times> 'f stepticker" where
  "motor_loop s = fold for_motor [0..<num_motors s] (False, s)"

text \<open>Lines 197-200: the unstep timer is restarted when a bit of \<open>unstep\<close> is set.\<close>

definition rearm_unstep :: "'f stepticker \<Rightarrow> 'f stepticker" where
  "rearm_unstep s = (if unstep s \<noteq> {} then emit Tim1Restart s else s)"

text \<open>Lines 203-219: what the handler does when no motor was active in this tick.\<close>

definition end_of_block ::
  "(u32 \<Rightarrow> 'f::{zero,one,times,inverse,uminus}) \<Rightarrow> 'f stepticker \<Rightarrow> 'f stepticker" where
  "end_of_block u2f s =
     (let s1 = s\<lparr>current_tick := 0\<rparr>;
          s2 = (case next_block s1 of
                  Some b \<Rightarrow> (copy_block u2f b s1)\<lparr>next_block := None\<rparr>
                | None \<Rightarrow> s1\<lparr>move_issued := False\<rparr>)
      in emit PendSVSet s2)"

definition TIMER0_IRQHandler ::
  "(u32 \<Rightarrow> 'f::{zero,one,plus,minus,uminus,times,inverse,ord}) \<Rightarrow> 'f stepticker \<Rightarrow> 'f stepticker" where
  "TIMER0_IRQHandler u2f s =
     (let s0 = emit Tim0Ack s
      in if \<not> move_issued s0 then s0
         else
           let s1 = s0\<lparr>current_tick := current_tick s0 + 1\<rparr>;
               r = motor_loop s1;
               s3 = rearm_unstep (snd r)
           in if \<not> fst r then end_of_block u2f s3 else s3)"

section \<open>Notions used to state the properties\<close>

text \<open>
  The state in which the loop over the motors starts (line 144): the interrupt is
  acknowledged and \<open>current_tick\<close> is incremented.
\<close>

definition tick_start :: "'f stepticker \<Rightarrow> 'f stepticker" where
  "tick_start s = (emit Tim0Ack s)\<lparr>current_tick := current_tick s + 1\<rparr>"

text \<open>
  Some motor below \<open>num_motors\<close> is active (\<open>steps_to_move \<noteq> 0\<close>): the loop of the
  next tick will set \<open>still_moving\<close>.
\<close>

definition still_active :: "'f stepticker \<Rightarrow> bool" where
  "still_active s \<longleftrightarrow> (\<exists>m \<in> set [0..<num_motors s]. steps_to_move (tick_info s m) \<noteq> 0)"

text \<open>Motor \<open>m\<close> is stepped by the loop that starts in state \<open>s\<close> (lines 182 and 184 run).\<close>

definition stepped :: "'f::{zero,one,plus,minus,uminus,times,inverse,ord} stepticker \<Rightarrow> nat \<Rightarrow> bool" where
  "stepped s m \<longleftrightarrow>
     steps_to_move (tick_info s m) \<noteq> 0 \<and>
     fst (tick_motor (current_tick s) (block_info s) (frequency s) (tick_info s m))"

text \<open>
  The tick info of motor \<open>m\<close> when the tick that starts from \<open>s\<close> reaches line 170:
  the acceleration is added and the change of phase is resolved.
\<close>

definition line_170 :: "'f::{zero,one,plus,minus,uminus,times,inverse,ord} stepticker \<Rightarrow> nat \<Rightarrow> 'f tickinfo" where
  "line_170 s m =
     accel_event (current_tick s + 1) (block_info s) (frequency s) (accelerate (tick_info s m))"

text \<open>The test of line 170 succeeds for motor \<open>m\<close> in the tick that starts from \<open>s\<close>.\<close>

definition guard_fires :: "'f::{zero,one,plus,minus,uminus,times,inverse,ord} stepticker \<Rightarrow> nat \<Rightarrow> bool" where
  "guard_fires s m \<longleftrightarrow> steps_per_tick (line_170 s m) \<le> 0"






section \<open>A concrete ticker\<close>

text \<open>
  Two motors at a tick frequency of 4, in exact rational arithmetic. The block
  accelerates until tick 2, runs at the plateau rate until tick 6 and decelerates to the end
  at tick 8; motor 0 makes 6 steps, motor 1 makes 3 (axis ratio 1/2). The same block waits
  in the mailbox. \<open>demo_run k\<close> is the ticker after the block is activated and the
  handler has run \<open>k\<close> times. \<open>fast_block\<close> starts at a rate of 5/2 steps per tick.
\<close>

definition rat_of_u32 :: "u32 \<Rightarrow> rat" where
  "rat_of_u32 w = of_nat (unat w)"

definition demo_block :: "rat block" where
  "demo_block =
     \<lparr>accelerate_until = 2, decelerate_after = 6, total_move_ticks = 8,
      initial_rate = 1, maximum_rate = 3,
      acceleration_per_tick = 1 / 4, deceleration_per_tick = 3 / 4,
      steps_event_count = 6,
      steps = (\<lambda>m. if m = 0 then 6 else if m = 1 then 3 else 0),
      direction_bits = (\<lambda>m. m = 0)\<rparr>"

definition fast_block :: "rat block" where
  "fast_block = demo_block\<lparr>initial_rate := 10\<rparr>"

definition demo_ticker :: "rat stepticker" where
  "demo_ticker =
     \<lparr>frequency = 4, num_motors = 2, motor = (\<lambda>i. if i < 2 then 100 + i else 0), unstep = {},
      tick_info = (\<lambda>m. \<lparr>steps_per_tick = 0, counter = 0, acceleration_change = 0,
                          axis_ratio = 0, steps_to_move = 0, step_count = 0,
                          next_accel_event = 0\<rparr>),
      block_info = \<lparr>bi_accelerate_until = 0, bi_decelerate_after = 0, bi_maximum_rate = 0,
                     bi_deceleration_per_tick = 0, bi_total_move_ticks = 0\<rparr>,
      next_block = Some demo_block, move_issued = False, do_move_finished = 0,
      finished_fnc = True, current_tick = 0, trace = []\<rparr>"

definition demo_info :: "rat block_info_t" where
  "demo_info = \<lparr>bi_accelerate_until = 2, bi_decelerate_after = 6, bi_maximum_rate = 3,
                 bi_deceleration_per_tick = 3 / 4, bi_total_move_ticks = 8\<rparr>"

definition demo_run :: "nat \<Rightarrow> rat stepticker" where
  "demo_run k = (TIMER0_IRQHandler rat_of_u32 ^^ k) (copy_block rat_of_u32 demo_block demo_ticker)"

definition demo_facts ::
  "rat stepticker \<Rightarrow> u32 \<Rightarrow> rat tickinfo \<Rightarrow> rat tickinfo \<Rightarrow> bool" where
  "demo_facts s ct ti0 ti1 \<longleftrightarrow>
     move_issued s \<and> num_motors s = 2 \<and> current_tick s = ct \<and> frequency s = 4 \<and>
     block_info s = demo_info \<and>
     next_block s = Some demo_block \<and> do_move_finished s = 0 \<and> finished_fnc s \<and>
     tick_info s 0 = ti0 \<and> tick_info s 1 = ti1"

section \<open>An arithmetic with a value that is not a number\<close>

text \<open>
  Floats have a value NaN, which every operation hands on and which compares false with
  everything. \<open>fnum\<close> is the least arithmetic that has it: the rational numbers and NaN.
  It has no rounding and no infinities (a quotient by zero is NaN here); the run below
  divides by 4 and 6 only. \<open>nan_block\<close> is a plateau of 8 ticks whose \<open>initial_rate\<close> is
  NaN.
\<close>

datatype fnum = Fin rat | NaN

instantiation fnum :: "{zero,one,plus,minus,uminus,times,inverse,ord}"
begin

definition zero_fnum :: fnum where
  "zero_fnum = Fin 0"

definition one_fnum :: fnum where
  "one_fnum = Fin 1"

fun plus_fnum :: "fnum \<Rightarrow> fnum \<Rightarrow> fnum" where
  "plus_fnum (Fin x) (Fin y) = Fin (x + y)"
| "plus_fnum _ _ = NaN"

fun minus_fnum :: "fnum \<Rightarrow> fnum \<Rightarrow> fnum" where
  "minus_fnum (Fin x) (Fin y) = Fin (x - y)"
| "minus_fnum _ _ = NaN"

fun uminus_fnum :: "fnum \<Rightarrow> fnum" where
  "uminus_fnum (Fin x) = Fin (- x)"
| "uminus_fnum NaN = NaN"

fun times_fnum :: "fnum \<Rightarrow> fnum \<Rightarrow> fnum" where
  "times_fnum (Fin x) (Fin y) = Fin (x * y)"
| "times_fnum _ _ = NaN"

fun divide_fnum :: "fnum \<Rightarrow> fnum \<Rightarrow> fnum" where
  "divide_fnum (Fin x) (Fin y) = (if y = 0 then NaN else Fin (x / y))"
| "divide_fnum _ _ = NaN"

fun inverse_fnum :: "fnum \<Rightarrow> fnum" where
  "inverse_fnum (Fin x) = (if x = 0 then NaN else Fin (inverse x))"
| "inverse_fnum NaN = NaN"

fun less_eq_fnum :: "fnum \<Rightarrow> fnum \<Rightarrow> bool" where
  "less_eq_fnum (Fin x) (Fin y) = (x \<le> y)"
| "less_eq_fnum _ _ = False"

fun less_fnum :: "fnum \<Rightarrow> fnum \<Rightarrow> bool" where
  "less_fnum (Fin x) (Fin y) = (x < y)"
| "less_fnum _ _ = False"

instance ..

end





section \<open>Basic facts\<close>

subsection \<open>Effects and idle ticks\<close>

lemma emit_simps [simp]:
  "trace (emit e s) = trace s @ [e]"
  "frequency (emit e s) = frequency s"
  "num_motors (emit e s) = num_motors s"
  "motor (emit e s) = motor s"
  "unstep (emit e s) = unstep s"
  "tick_info (emit e s) = tick_info s"
  "block_info (emit e s) = block_info s"
  "next_block (emit e s) = next_block s"
  "move_issued (emit e s) = move_issued s"
  "do_move_finished (emit e s) = do_move_finished s"
  "finished_fnc (emit e s) = finished_fnc s"
  "current_tick (emit e s) = current_tick s"
  by (simp_all add: emit_def)

lemma idle_tick: "\<not> move_issued s \<Longrightarrow> TIMER0_IRQHandler u2f s = emit Tim0Ack s"
  by (simp add: TIMER0_IRQHandler_def Let_def)

lemma tick_start_simps [simp]:
  "trace (tick_start s) = trace s @ [Tim0Ack]"
  "current_tick (tick_start s) = current_tick s + 1"
  "frequency (tick_start s) = frequency s"
  "num_motors (tick_start s) = num_motors s"
  "motor (tick_start s) = motor s"
  "unstep (tick_start s) = unstep s"
  "tick_info (tick_start s) = tick_info s"
  "block_info (tick_start s) = block_info s"
  "next_block (tick_start s) = next_block s"
  "move_issued (tick_start s) = move_issued s"
  "do_move_finished (tick_start s) = do_move_finished s"
  "finished_fnc (tick_start s) = finished_fnc s"
  by (simp_all add: tick_start_def)

lemma rearm_unstep_simps [simp]:
  "trace (rearm_unstep s) = trace s @ (if unstep s \<noteq> {} then [Tim1Restart] else [])"
  "current_tick (rearm_unstep s) = current_tick s"
  "frequency (rearm_unstep s) = frequency s"
  "num_motors (rearm_unstep s) = num_motors s"
  "motor (rearm_unstep s) = motor s"
  "unstep (rearm_unstep s) = unstep s"
  "tick_info (rearm_unstep s) = tick_info s"
  "block_info (rearm_unstep s) = block_info s"
  "next_block (rearm_unstep s) = next_block s"
  "move_issued (rearm_unstep s) = move_issued s"
  "do_move_finished (rearm_unstep s) = do_move_finished s"
  "finished_fnc (rearm_unstep s) = finished_fnc s"
  by (simp_all add: rearm_unstep_def)

lemma still_active_tick_start [simp]: "still_active (tick_start s) = still_active s"
  by (simp add: still_active_def)

subsection \<open>The loop over the motors\<close>

text \<open>
  An iteration touches the tick info of its own motor only, and leaves every other member
  of the object alone but \<open>unstep\<close> and the trace.
\<close>

lemma for_motor_frame:
  "num_motors (snd (for_motor m p)) = num_motors (snd p)"
  "current_tick (snd (for_motor m p)) = current_tick (snd p)"
  "block_info (snd (for_motor m p)) = block_info (snd p)"
  "frequency (snd (for_motor m p)) = frequency (snd p)"
  "next_block (snd (for_motor m p)) = next_block (snd p)"
  "move_issued (snd (for_motor m p)) = move_issued (snd p)"
  "do_move_finished (snd (for_motor m p)) = do_move_finished (snd p)"
  "finished_fnc (snd (for_motor m p)) = finished_fnc (snd p)"
  "motor (snd (for_motor m p)) = motor (snd p)"
  by (cases p; simp add: Let_def)+

lemma for_motor_other:
  "m' \<noteq> m \<Longrightarrow> tick_info (snd (for_motor m p)) m' = tick_info (snd p) m'"
  by (cases p) (simp add: Let_def)

lemma for_motor_self:
  "tick_info (snd (for_motor m p)) m =
     (if steps_to_move (tick_info (snd p) m) = 0 then tick_info (snd p) m
      else snd (tick_motor (current_tick (snd p)) (block_info (snd p)) (frequency (snd p))
                  (tick_info (snd p) m)))"
  by (cases p) (simp add: Let_def)

lemma for_motor_trace:
  "trace (snd (for_motor m p)) = trace (snd p) @ (if stepped (snd p) m then [MotorStep m] else [])"
  by (cases p) (simp add: Let_def stepped_def)

lemma for_motor_unstep:
  "unstep (snd (for_motor m p)) = (if stepped (snd p) m then insert m (unstep (snd p)) else unstep (snd p))"
  by (cases p) (simp add: Let_def stepped_def)

lemma for_motor_still_moving:
  "fst (for_motor m p) = (fst p \<or> steps_to_move (tick_info (snd p) m) \<noteq> 0)"
  by (cases p) (simp add: Let_def)

lemma for_motor_inactive:
  "steps_to_move (tick_info (snd p) m) = 0 \<Longrightarrow> for_motor m p = p"
  by (cases p) simp

lemma fold_for_motor_frame:
  "num_motors (snd (fold for_motor ms p)) = num_motors (snd p)"
  "current_tick (snd (fold for_motor ms p)) = current_tick (snd p)"
  "block_info (snd (fold for_motor ms p)) = block_info (snd p)"
  "frequency (snd (fold for_motor ms p)) = frequency (snd p)"
  "next_block (snd (fold for_motor ms p)) = next_block (snd p)"
  "move_issued (snd (fold for_motor ms p)) = move_issued (snd p)"
  "do_move_finished (snd (fold for_motor ms p)) = do_move_finished (snd p)"
  "finished_fnc (snd (fold for_motor ms p)) = finished_fnc (snd p)"
  "motor (snd (fold for_motor ms p)) = motor (snd p)"
  by (induction ms arbitrary: p; simp add: for_motor_frame)+

lemma fold_for_motor_not_in:
  "m \<notin> set ms \<Longrightarrow> tick_info (snd (fold for_motor ms p)) m = tick_info (snd p) m"
  by (induction ms arbitrary: p) (auto simp: for_motor_other)

lemma fold_for_motor_tick_info:
  "distinct ms \<Longrightarrow> m \<in> set ms \<Longrightarrow>
   tick_info (snd (fold for_motor ms p)) m =
     (if steps_to_move (tick_info (snd p) m) = 0 then tick_info (snd p) m
      else snd (tick_motor (current_tick (snd p)) (block_info (snd p)) (frequency (snd p))
                  (tick_info (snd p) m)))"
proof (induction ms arbitrary: p)
  case Nil
  then show ?case by simp
next
  case (Cons a ms)
  show ?case
  proof (cases "m = a")
    case True
    with Cons.prems have "m \<notin> set ms" by simp
    then show ?thesis using True
      by (simp add: fold_for_motor_not_in for_motor_self)
  next
    case False
    with Cons.prems have "m \<in> set ms" "distinct ms" by simp_all
    then show ?thesis using False Cons.IH [of "for_motor a p"]
      by (simp add: for_motor_other for_motor_frame)
  qed
qed

lemma fold_for_motor_still_moving:
  "distinct ms \<Longrightarrow>
   fst (fold for_motor ms p) = (fst p \<or> (\<exists>m\<in>set ms. steps_to_move (tick_info (snd p) m) \<noteq> 0))"
proof (induction ms arbitrary: p)
  case Nil
  then show ?case by simp
next
  case (Cons a ms)
  have other: "tick_info (snd (for_motor a p)) m = tick_info (snd p) m" if "m \<in> set ms" for m
    using that Cons.prems by (intro for_motor_other) auto
  from Cons.prems have "distinct ms" by simp
  from Cons.IH [OF this, of "for_motor a p"] show ?case
    by (auto simp: for_motor_still_moving other)
qed

lemma fold_for_motor_trace:
  "distinct ms \<Longrightarrow>
   trace (snd (fold for_motor ms p)) = trace (snd p) @ map MotorStep (filter (stepped (snd p)) ms)"
proof (induction ms arbitrary: p)
  case Nil
  then show ?case by simp
next
  case (Cons a ms)
  have other: "tick_info (snd (for_motor a p)) m = tick_info (snd p) m" if "m \<in> set ms" for m
    using that Cons.prems by (intro for_motor_other) auto
  have same: "filter (stepped (snd (for_motor a p))) ms = filter (stepped (snd p)) ms"
    by (rule filter_cong) (simp_all add: stepped_def other for_motor_frame)
  from Cons.prems have "distinct ms" by simp
  from Cons.IH [OF this, of "for_motor a p"] show ?case
    by (simp add: same for_motor_trace)
qed

lemma fold_for_motor_unstep:
  "distinct ms \<Longrightarrow>
   unstep (snd (fold for_motor ms p)) = unstep (snd p) \<union> {m \<in> set ms. stepped (snd p) m}"
proof (induction ms arbitrary: p)
  case Nil
  then show ?case by simp
next
  case (Cons a ms)
  have other: "tick_info (snd (for_motor a p)) m = tick_info (snd p) m" if "m \<in> set ms" for m
    using that Cons.prems by (intro for_motor_other) auto
  have same: "\<And>m. m \<in> set ms \<Longrightarrow> stepped (snd (for_motor a p)) m = stepped (snd p) m"
    by (simp add: stepped_def other for_motor_frame)
  from Cons.prems have "distinct ms" by simp
  from Cons.IH [OF this, of "for_motor a p"] show ?case
    by (auto simp: same for_motor_unstep)
qed

lemma fold_for_motor_inactive:
  "\<forall>m\<in>set ms. steps_to_move (tick_info (snd p) m) = 0 \<Longrightarrow> fold for_motor ms p = p"
  by (induction ms arbitrary: p) (simp_all add: for_motor_inactive)

lemma motor_loop_still_moving: "fst (motor_loop s) = still_active s"
  by (simp add: motor_loop_def still_active_def fold_for_motor_still_moving)

lemma motor_loop_inactive: "\<not> still_active s \<Longrightarrow> motor_loop s = (False, s)"
  by (simp add: motor_loop_def still_active_def fold_for_motor_inactive)

lemma motor_loop_frame:
  "num_motors (snd (motor_loop s)) = num_motors s"
  "current_tick (snd (motor_loop s)) = current_tick s"
  "block_info (snd (motor_loop s)) = block_info s"
  "frequency (snd (motor_loop s)) = frequency s"
  "next_block (snd (motor_loop s)) = next_block s"
  "move_issued (snd (motor_loop s)) = move_issued s"
  "do_move_finished (snd (motor_loop s)) = do_move_finished s"
  "finished_fnc (snd (motor_loop s)) = finished_fnc s"
  "motor (snd (motor_loop s)) = motor s"
  by (simp_all add: motor_loop_def fold_for_motor_frame)

lemma motor_loop_tick_info:
  "tick_info (snd (motor_loop s)) m =
     (if m < num_motors s \<and> steps_to_move (tick_info s m) \<noteq> 0
      then snd (tick_motor (current_tick s) (block_info s) (frequency s) (tick_info s m))
      else tick_info s m)"
proof (cases "m < num_motors s")
  case True
  then have "m \<in> set [0..<num_motors s]" by simp
  with True show ?thesis
    by (simp add: motor_loop_def fold_for_motor_tick_info)
next
  case False
  then show ?thesis by (simp add: motor_loop_def fold_for_motor_not_in)
qed

lemma motor_loop_trace:
  "trace (snd (motor_loop s)) = trace s @ map MotorStep (filter (stepped s) [0..<num_motors s])"
  by (simp add: motor_loop_def fold_for_motor_trace)

lemma motor_loop_unstep:
  "unstep (snd (motor_loop s)) = unstep s \<union> {m. m < num_motors s \<and> stepped s m}"
  by (auto simp add: motor_loop_def fold_for_motor_unstep)

lemma count_list_filter_distinct:
  "distinct xs \<Longrightarrow> count_list (filter P xs) m = (if m \<in> set xs \<and> P m then 1 else 0)"
  by (induction xs) auto

lemma count_list_map_MotorStep: "count_list (map MotorStep xs) (MotorStep m) = count_list xs m"
  by (induction xs) auto

lemma motor_loop_step_count:
  "count_list (trace (snd (motor_loop s))) (MotorStep m) =
     count_list (trace s) (MotorStep m) + (if m < num_motors s \<and> stepped s m then 1 else 0)"
  by (simp add: motor_loop_trace count_list_map_MotorStep count_list_filter_distinct)

subsection \<open>One motor in one tick\<close>

lemma pre_step_counts [simp]:
  "step_count (accelerate ti) = step_count ti"
  "steps_to_move (accelerate ti) = steps_to_move ti"
  "step_count (accel_event ct bi freq ti) = step_count ti"
  "steps_to_move (accel_event ct bi freq ti) = steps_to_move ti"
  "step_count (rounding_guard ti) = step_count ti"
  "steps_to_move (rounding_guard ti) = steps_to_move ti"
  by (simp_all add: accelerate_def accel_event_def rounding_guard_def Let_def)



lemma issue_step_keeps [simp]:
  "acceleration_change (snd (issue_step ti)) = acceleration_change ti"
  "next_accel_event (snd (issue_step ti)) = next_accel_event ti"
  "axis_ratio (snd (issue_step ti)) = axis_ratio ti"
  "steps_per_tick (snd (issue_step ti)) = steps_per_tick ti"
  by (simp_all add: issue_step_def Let_def)

lemma rounding_guard_keeps [simp]:
  "acceleration_change (rounding_guard ti) = acceleration_change ti"
  "next_accel_event (rounding_guard ti) = next_accel_event ti"
  "axis_ratio (rounding_guard ti) = axis_ratio ti"
  by (simp_all add: rounding_guard_def)

lemma accelerate_keeps [simp]:
  "acceleration_change (accelerate ti) = acceleration_change ti"
  "next_accel_event (accelerate ti) = next_accel_event ti"
  "axis_ratio (accelerate ti) = axis_ratio ti"
  "counter (accelerate ti) = counter ti"
  "steps_per_tick (accelerate ti) = steps_per_tick ti + acceleration_change ti"
  by (simp_all add: accelerate_def)

subsection \<open>copy_block\<close>

lemma copy_motor_frame:
  "num_motors (copy_motor u2f b m s) = num_motors s"
  "current_tick (copy_motor u2f b m s) = current_tick s"
  "block_info (copy_motor u2f b m s) = block_info s"
  "frequency (copy_motor u2f b m s) = frequency s"
  "next_block (copy_motor u2f b m s) = next_block s"
  "move_issued (copy_motor u2f b m s) = move_issued s"
  "do_move_finished (copy_motor u2f b m s) = do_move_finished s"
  "finished_fnc (copy_motor u2f b m s) = finished_fnc s"
  "motor (copy_motor u2f b m s) = motor s"
  "unstep (copy_motor u2f b m s) = unstep s"
  by (simp_all add: copy_motor_def Let_def)

lemma copy_motor_other:
  "m' \<noteq> m \<Longrightarrow> tick_info (copy_motor u2f b m s) m' = tick_info s m'"
  by (simp add: copy_motor_def Let_def)

lemma copy_motor_self:
  "tick_info (copy_motor u2f b m s) m =
     (if steps b m = 0 then (tick_info s m)\<lparr>steps_to_move := 0\<rparr>
      else init_tickinfo u2f (frequency s) b m ((tick_info s m)\<lparr>steps_to_move := steps b m\<rparr>))"
  by (simp add: copy_motor_def Let_def)

lemma copy_motor_trace:
  "trace (copy_motor u2f b m s) =
     trace s @ (if steps b m \<noteq> 0 then [MotorSetDirection m (direction_bits b m)] else [])"
  by (simp add: copy_motor_def Let_def)

lemma fold_copy_motor_frame:
  "num_motors (fold (copy_motor u2f b) ms s) = num_motors s"
  "current_tick (fold (copy_motor u2f b) ms s) = current_tick s"
  "block_info (fold (copy_motor u2f b) ms s) = block_info s"
  "frequency (fold (copy_motor u2f b) ms s) = frequency s"
  "next_block (fold (copy_motor u2f b) ms s) = next_block s"
  "move_issued (fold (copy_motor u2f b) ms s) = move_issued s"
  "do_move_finished (fold (copy_motor u2f b) ms s) = do_move_finished s"
  "finished_fnc (fold (copy_motor u2f b) ms s) = finished_fnc s"
  "motor (fold (copy_motor u2f b) ms s) = motor s"
  "unstep (fold (copy_motor u2f b) ms s) = unstep s"
  by (induction ms arbitrary: s; simp add: copy_motor_frame)+

lemma fold_copy_motor_not_in:
  "m \<notin> set ms \<Longrightarrow> tick_info (fold (copy_motor u2f b) ms s) m = tick_info s m"
  by (induction ms arbitrary: s) (auto simp: copy_motor_other)

lemma fold_copy_motor_tick_info:
  "distinct ms \<Longrightarrow> m \<in> set ms \<Longrightarrow>
   tick_info (fold (copy_motor u2f b) ms s) m =
     (if steps b m = 0 then (tick_info s m)\<lparr>steps_to_move := 0\<rparr>
      else init_tickinfo u2f (frequency s) b m ((tick_info s m)\<lparr>steps_to_move := steps b m\<rparr>))"
proof (induction ms arbitrary: s)
  case Nil
  then show ?case by simp
next
  case (Cons a ms)
  show ?case
  proof (cases "m = a")
    case True
    with Cons.prems have "m \<notin> set ms" by simp
    then show ?thesis using True
      by (simp add: fold_copy_motor_not_in copy_motor_self)
  next
    case False
    with Cons.prems have "m \<in> set ms" "distinct ms" by simp_all
    then show ?thesis using False Cons.IH [of "copy_motor u2f b a s"]
      by (simp add: copy_motor_other copy_motor_frame)
  qed
qed

lemma fold_copy_motor_trace:
  "trace (fold (copy_motor u2f b) ms s) =
     trace s @ map (\<lambda>m. MotorSetDirection m (direction_bits b m)) (filter (\<lambda>m. steps b m \<noteq> 0) ms)"
  by (induction ms arbitrary: s) (simp_all add: copy_motor_trace)

lemma copy_block_frame:
  "num_motors (copy_block u2f b s) = num_motors s"
  "current_tick (copy_block u2f b s) = current_tick s"
  "frequency (copy_block u2f b s) = frequency s"
  "next_block (copy_block u2f b s) = next_block s"
  "do_move_finished (copy_block u2f b s) = do_move_finished s"
  "finished_fnc (copy_block u2f b s) = finished_fnc s"
  "motor (copy_block u2f b s) = motor s"
  "unstep (copy_block u2f b s) = unstep s"
  "move_issued (copy_block u2f b s)"
  by (simp_all add: copy_block_def Let_def fold_copy_motor_frame)

lemma copy_block_block_info:
  "block_info (copy_block u2f b s) =
     \<lparr>bi_accelerate_until = accelerate_until b,
      bi_decelerate_after = decelerate_after b,
      bi_maximum_rate = maximum_rate b,
      bi_deceleration_per_tick = deceleration_per_tick b,
      bi_total_move_ticks = total_move_ticks b\<rparr>"
  by (simp add: copy_block_def Let_def fold_copy_motor_frame)

lemma copy_block_tick_info:
  "tick_info (copy_block u2f b s) m =
     (if m < num_motors s then
        if steps b m = 0 then (tick_info s m)\<lparr>steps_to_move := 0\<rparr>
        else init_tickinfo u2f (frequency s) b m ((tick_info s m)\<lparr>steps_to_move := steps b m\<rparr>)
      else tick_info s m)"
proof (cases "m < num_motors s")
  case True
  then have "m \<in> set [0..<num_motors s]" by simp
  with True show ?thesis
    by (simp add: copy_block_def Let_def fold_copy_motor_tick_info)
next
  case False
  then show ?thesis by (simp add: copy_block_def Let_def fold_copy_motor_not_in)
qed

lemma copy_block_trace:
  "trace (copy_block u2f b s) =
     trace s @ map (\<lambda>m. MotorSetDirection m (direction_bits b m))
                 (filter (\<lambda>m. steps b m \<noteq> 0) [0..<num_motors s])"
  by (simp add: copy_block_def Let_def fold_copy_motor_trace)

lemma init_tickinfo_counts [simp]:
  "step_count (init_tickinfo u2f freq b m ti) = 0"
  "steps_to_move (init_tickinfo u2f freq b m ti) = steps_to_move ti"
  by (simp_all add: init_tickinfo_def Let_def)

lemma copy_block_tick_info_cong:
  assumes "tick_info s = tick_info t" "frequency s = frequency t" "num_motors s = num_motors t"
  shows "tick_info (copy_block u2f b s) = tick_info (copy_block u2f b t)"
  using assms by (intro ext) (simp add: copy_block_tick_info)

text \<open>
  In exact arithmetic (any field) the axis ratio \<open>(1 / steps_event_count) * steps\<close> is the
  quotient \<open>steps / steps_event_count\<close>; in floating point the two may differ by a
  rounding.
\<close>

lemma aratio_exact:
  fixes u2f :: "u32 \<Rightarrow> 'a::field"
  shows "aratio u2f b m = u2f (steps b m) / u2f (steps_event_count b)"
  by (simp add: aratio_def)

subsection \<open>The three kinds of tick\<close>

text \<open>
  A tick is idle (\<open>idle_tick\<close>), or it runs the motors of a block that is still moving,
  or it finds no motor active and ends the block: it swaps in the block of the mailbox, or
  goes idle when the mailbox is empty.
\<close>

lemma running_tick:
  "move_issued s \<Longrightarrow> still_active s \<Longrightarrow>
   TIMER0_IRQHandler u2f s = rearm_unstep (snd (motor_loop (tick_start s)))"
  by (simp add: TIMER0_IRQHandler_def Let_def motor_loop_still_moving tick_start_def [symmetric])

lemma finishing_tick:
  "move_issued s \<Longrightarrow> \<not> still_active s \<Longrightarrow>
   TIMER0_IRQHandler u2f s = end_of_block u2f (rearm_unstep (tick_start s))"
  by (simp add: TIMER0_IRQHandler_def Let_def motor_loop_inactive tick_start_def [symmetric])

lemma finishing_tick_swap:
  assumes "move_issued s" "\<not> still_active s" "next_block s = Some b"
  shows "TIMER0_IRQHandler u2f s =
           emit PendSVSet
             ((copy_block u2f b ((rearm_unstep (tick_start s))\<lparr>current_tick := 0\<rparr>))
                \<lparr>next_block := None\<rparr>)"
  using assms by (simp add: finishing_tick end_of_block_def Let_def)

lemma finishing_tick_idle:
  assumes "move_issued s" "\<not> still_active s" "next_block s = None"
  shows "TIMER0_IRQHandler u2f s =
           emit PendSVSet ((rearm_unstep (tick_start s))\<lparr>current_tick := 0, move_issued := False\<rparr>)"
  using assms by (simp add: finishing_tick end_of_block_def Let_def)

lemma running_tick_fields:
  assumes "move_issued s" "still_active s"
  shows "num_motors (TIMER0_IRQHandler u2f s) = num_motors s"
    and "move_issued (TIMER0_IRQHandler u2f s)"
    and "tick_info (TIMER0_IRQHandler u2f s) m =
           (if m < num_motors s \<and> steps_to_move (tick_info s m) \<noteq> 0
            then snd (tick_motor (current_tick s + 1) (block_info s) (frequency s) (tick_info s m))
            else tick_info s m)"
    and "count_list (trace (TIMER0_IRQHandler u2f s)) (MotorStep m) =
           count_list (trace s) (MotorStep m) +
           (if m < num_motors s \<and> stepped (tick_start s) m then 1 else 0)"
  using assms
  by (simp_all add: running_tick motor_loop_frame motor_loop_tick_info motor_loop_step_count)

lemma running_tick_frame:
  assumes "move_issued s" "still_active s"
  shows "current_tick (TIMER0_IRQHandler u2f s) = current_tick s + 1"
    and "block_info (TIMER0_IRQHandler u2f s) = block_info s"
    and "frequency (TIMER0_IRQHandler u2f s) = frequency s"
    and "next_block (TIMER0_IRQHandler u2f s) = next_block s"
    and "do_move_finished (TIMER0_IRQHandler u2f s) = do_move_finished s"
    and "finished_fnc (TIMER0_IRQHandler u2f s) = finished_fnc s"
  using assms by (simp_all add: running_tick motor_loop_frame)

lemma active_tick_info:
  assumes "move_issued s" "m < num_motors s" "steps_to_move (tick_info s m) \<noteq> 0"
  shows "tick_info (TIMER0_IRQHandler u2f s) m = snd (issue_step (rounding_guard (line_170 s m)))"
    and "count_list (trace (TIMER0_IRQHandler u2f s)) (MotorStep m) =
           count_list (trace s) (MotorStep m) +
           (if fst (issue_step (rounding_guard (line_170 s m))) then 1 else 0)"
    and "m \<in> unstep (TIMER0_IRQHandler u2f s) \<longleftrightarrow>
           m \<in> unstep s \<or> fst (issue_step (rounding_guard (line_170 s m)))"
proof -
  from assms have act: "still_active s" by (auto simp: still_active_def)
  show "tick_info (TIMER0_IRQHandler u2f s) m = snd (issue_step (rounding_guard (line_170 s m)))"
    using assms by (simp add: running_tick_fields [OF assms(1) act] tick_motor_def line_170_def)
  show "count_list (trace (TIMER0_IRQHandler u2f s)) (MotorStep m) =
           count_list (trace s) (MotorStep m) +
           (if fst (issue_step (rounding_guard (line_170 s m))) then 1 else 0)"
    using assms
    by (simp add: running_tick_fields [OF assms(1) act] stepped_def tick_motor_def line_170_def)
  show "m \<in> unstep (TIMER0_IRQHandler u2f s) \<longleftrightarrow>
           m \<in> unstep s \<or> fst (issue_step (rounding_guard (line_170 s m)))"
    using assms
    by (simp add: running_tick [OF assms(1) act] motor_loop_unstep stepped_def tick_motor_def line_170_def)
qed



lemma TIMER0_do_move_finished:
  "do_move_finished (TIMER0_IRQHandler u2f s) = do_move_finished s"
proof (cases "move_issued s")
  case False
  then show ?thesis by (simp add: idle_tick)
next
  case True
  show ?thesis
  proof (cases "still_active s")
    case True
    with \<open>move_issued s\<close> show ?thesis by (simp add: running_tick_frame)
  next
    case False
    with \<open>move_issued s\<close> show ?thesis
      by (cases "next_block s")
         (simp_all add: finishing_tick_idle finishing_tick_swap copy_block_frame)
  qed
qed

subsection \<open>The invariant of a running block\<close>









subsection \<open>Progress in exact arithmetic\<close>










subsection \<open>Ticks in which the rounding guard fires\<close>

lemma guard_tick:
  assumes one: "(1::'f::{zero,one,plus,minus,uminus,times,inverse,ord}) \<le> 1 + 0"
    and act: "move_issued (s :: 'f stepticker)" "m < num_motors s" "steps_to_move (tick_info s m) \<noteq> 0"
    and g: "guard_fires s m"
  shows "steps_per_tick (tick_info (TIMER0_IRQHandler u2f s) m) = 0"
    and "counter (tick_info (TIMER0_IRQHandler u2f s) m) = (1 + 0) - 1"
    and "step_count (tick_info (TIMER0_IRQHandler u2f s) m) = step_count (tick_info s m) + 1"
    and "steps_to_move (tick_info (TIMER0_IRQHandler u2f s) m) =
           (if step_count (tick_info s m) + 1 = steps_to_move (tick_info s m) then 0
            else steps_to_move (tick_info s m))"
    and "count_list (trace (TIMER0_IRQHandler u2f s)) (MotorStep m) =
           count_list (trace s) (MotorStep m) + 1"
    and "m \<in> unstep (TIMER0_IRQHandler u2f s)"
    and "num_motors (TIMER0_IRQHandler u2f s) = num_motors s"
proof -
  from g have rg: "rounding_guard (line_170 s m) = (line_170 s m)\<lparr>counter := 1, steps_per_tick := 0\<rparr>"
    by (simp add: guard_fires_def rounding_guard_def)
  have sc: "step_count (line_170 s m) = step_count (tick_info s m)"
    "steps_to_move (line_170 s m) = steps_to_move (tick_info s m)"
    by (simp_all add: line_170_def)
  from act have sa: "still_active s" by (auto simp: still_active_def)
  show "steps_per_tick (tick_info (TIMER0_IRQHandler u2f s) m) = 0"
    by (simp add: active_tick_info(1) [OF act] rg)
  show "counter (tick_info (TIMER0_IRQHandler u2f s) m) = (1 + 0) - 1"
    using one by (simp add: active_tick_info(1) [OF act] rg issue_step_def Let_def)
  show "step_count (tick_info (TIMER0_IRQHandler u2f s) m) = step_count (tick_info s m) + 1"
    using one by (simp add: active_tick_info(1) [OF act] rg issue_step_def Let_def sc)
  show "steps_to_move (tick_info (TIMER0_IRQHandler u2f s) m) =
           (if step_count (tick_info s m) + 1 = steps_to_move (tick_info s m) then 0
            else steps_to_move (tick_info s m))"
    using one by (simp add: active_tick_info(1) [OF act] rg issue_step_def Let_def sc)
  show "count_list (trace (TIMER0_IRQHandler u2f s)) (MotorStep m) =
           count_list (trace s) (MotorStep m) + 1"
    using one by (simp add: active_tick_info(2) [OF act] rg issue_step_def Let_def)
  show "m \<in> unstep (TIMER0_IRQHandler u2f s)"
    using one by (simp add: active_tick_info(3) [OF act] rg issue_step_def Let_def)
  show "num_motors (TIMER0_IRQHandler u2f s) = num_motors s"
    by (simp add: running_tick_fields(1) [OF act(1) sa])
qed

lemma guard_ticks:
  assumes one: "(1::'f::{zero,one,plus,minus,uminus,times,inverse,ord}) \<le> 1 + 0"
    and m: "m < num_motors (s :: 'f stepticker)"
    and each: "\<forall>j<k. move_issued ((TIMER0_IRQHandler u2f ^^ j) s) \<and>
                  steps_to_move (tick_info ((TIMER0_IRQHandler u2f ^^ j) s) m) \<noteq> 0 \<and>
                  guard_fires ((TIMER0_IRQHandler u2f ^^ j) s) m"
  shows "num_motors ((TIMER0_IRQHandler u2f ^^ k) s) = num_motors s \<and>
         step_count (tick_info ((TIMER0_IRQHandler u2f ^^ k) s) m) =
           step_count (tick_info s m) + of_nat k \<and>
         count_list (trace ((TIMER0_IRQHandler u2f ^^ k) s)) (MotorStep m) =
           count_list (trace s) (MotorStep m) + k"
  using each
proof (induction k)
  case 0
  show ?case by simp
next
  case (Suc k)
  let ?t = "(TIMER0_IRQHandler u2f ^^ k) s"
  from Suc.prems have now: "move_issued ?t" "steps_to_move (tick_info ?t m) \<noteq> 0" "guard_fires ?t m"
    and before: "\<forall>j<k. move_issued ((TIMER0_IRQHandler u2f ^^ j) s) \<and>
                  steps_to_move (tick_info ((TIMER0_IRQHandler u2f ^^ j) s) m) \<noteq> 0 \<and>
                  guard_fires ((TIMER0_IRQHandler u2f ^^ j) s) m"
    by simp_all
  from Suc.IH [OF before] have ih: "num_motors ?t = num_motors s"
    "step_count (tick_info ?t m) = step_count (tick_info s m) + of_nat k"
    "count_list (trace ?t) (MotorStep m) = count_list (trace s) (MotorStep m) + k"
    by simp_all
  from m ih(1) have mt: "m < num_motors ?t" by simp
  from guard_tick(3,5,7) [OF one now(1) mt now(2,3), of u2f] ih
  show ?case by (simp add: add.assoc)
qed

subsection \<open>The run of the concrete ticker\<close>

text \<open>
  The tick info of both motors after each of the eight ticks of the block, computed from the
  definitions.
\<close>

lemma demo_0:
  "demo_facts (demo_run 0) 0
     \<lparr>steps_per_tick = 1 / 4, counter = 0, acceleration_change = 1 / 4, axis_ratio = 1,
      steps_to_move = 6, step_count = 0, next_accel_event = 2\<rparr>
     \<lparr>steps_per_tick = 1 / 8, counter = 0, acceleration_change = 1 / 8, axis_ratio = 1 / 2,
      steps_to_move = 3, step_count = 0, next_accel_event = 2\<rparr>"
  by (simp add: demo_facts_def demo_run_def copy_block_frame copy_block_block_info
      copy_block_tick_info init_tickinfo_def aratio_def Let_def demo_block_def demo_ticker_def
      rat_of_u32_def demo_info_def)

lemma demo_tick:
  assumes "demo_facts s ct ti0 ti1"
    and "steps_to_move ti0 \<noteq> 0 \<or> steps_to_move ti1 \<noteq> 0"
  shows "demo_facts (TIMER0_IRQHandler rat_of_u32 s) (ct + 1)
           (if steps_to_move ti0 = 0 then ti0
            else snd (tick_motor (ct + 1) demo_info 4 ti0))
           (if steps_to_move ti1 = 0 then ti1
            else snd (tick_motor (ct + 1) demo_info 4 ti1))"
proof -
  from assms have mi: "move_issued s" and sa: "still_active s"
    by (auto simp: demo_facts_def still_active_def)
  from assms(1) show ?thesis
    by (simp add: demo_facts_def running_tick_fields [OF mi sa] running_tick_frame [OF mi sa])
qed

lemmas tick_eval = tick_motor_def accelerate_def accel_event_def rounding_guard_def
  issue_step_def Let_def demo_facts_def demo_info_def

lemma demo_run_next:
  "demo_run 1 = TIMER0_IRQHandler rat_of_u32 (demo_run 0)"
  "demo_run 2 = TIMER0_IRQHandler rat_of_u32 (demo_run 1)"
  "demo_run 3 = TIMER0_IRQHandler rat_of_u32 (demo_run 2)"
  "demo_run 4 = TIMER0_IRQHandler rat_of_u32 (demo_run 3)"
  "demo_run 5 = TIMER0_IRQHandler rat_of_u32 (demo_run 4)"
  "demo_run 6 = TIMER0_IRQHandler rat_of_u32 (demo_run 5)"
  "demo_run 7 = TIMER0_IRQHandler rat_of_u32 (demo_run 6)"
  "demo_run 8 = TIMER0_IRQHandler rat_of_u32 (demo_run 7)"
  by (simp_all add: demo_run_def eval_nat_numeral)

lemma demo_1:
  "demo_facts (demo_run 1) 1
     \<lparr>steps_per_tick = 1 / 2, counter = 1 / 2, acceleration_change = 1 / 4, axis_ratio = 1,
      steps_to_move = 6, step_count = 0, next_accel_event = 2\<rparr>
     \<lparr>steps_per_tick = 1 / 4, counter = 1 / 4, acceleration_change = 1 / 8, axis_ratio = 1 / 2,
      steps_to_move = 3, step_count = 0, next_accel_event = 2\<rparr>"
  using demo_tick [OF demo_0] unfolding demo_run_next(1) by (simp add: tick_eval)

lemma demo_2:
  "demo_facts (demo_run 2) 2
     \<lparr>steps_per_tick = 3 / 4, counter = 1 / 4, acceleration_change = 0, axis_ratio = 1,
      steps_to_move = 6, step_count = 1, next_accel_event = 6\<rparr>
     \<lparr>steps_per_tick = 3 / 8, counter = 5 / 8, acceleration_change = 0, axis_ratio = 1 / 2,
      steps_to_move = 3, step_count = 0, next_accel_event = 6\<rparr>"
  using demo_tick [OF demo_1] unfolding demo_run_next(2) by (simp add: tick_eval)

lemma demo_3:
  "demo_facts (demo_run 3) 3
     \<lparr>steps_per_tick = 3 / 4, counter = 0, acceleration_change = 0, axis_ratio = 1,
      steps_to_move = 6, step_count = 2, next_accel_event = 6\<rparr>
     \<lparr>steps_per_tick = 3 / 8, counter = 0, acceleration_change = 0, axis_ratio = 1 / 2,
      steps_to_move = 3, step_count = 1, next_accel_event = 6\<rparr>"
  using demo_tick [OF demo_2] unfolding demo_run_next(3) by (simp add: tick_eval)

lemma demo_4:
  "demo_facts (demo_run 4) 4
     \<lparr>steps_per_tick = 3 / 4, counter = 3 / 4, acceleration_change = 0, axis_ratio = 1,
      steps_to_move = 6, step_count = 2, next_accel_event = 6\<rparr>
     \<lparr>steps_per_tick = 3 / 8, counter = 3 / 8, acceleration_change = 0, axis_ratio = 1 / 2,
      steps_to_move = 3, step_count = 1, next_accel_event = 6\<rparr>"
  using demo_tick [OF demo_3] unfolding demo_run_next(4) by (simp add: tick_eval)

lemma demo_5:
  "demo_facts (demo_run 5) 5
     \<lparr>steps_per_tick = 3 / 4, counter = 1 / 2, acceleration_change = 0, axis_ratio = 1,
      steps_to_move = 6, step_count = 3, next_accel_event = 6\<rparr>
     \<lparr>steps_per_tick = 3 / 8, counter = 3 / 4, acceleration_change = 0, axis_ratio = 1 / 2,
      steps_to_move = 3, step_count = 1, next_accel_event = 6\<rparr>"
  using demo_tick [OF demo_4] unfolding demo_run_next(5) by (simp add: tick_eval)

lemma demo_6:
  "demo_facts (demo_run 6) 6
     \<lparr>steps_per_tick = 3 / 4, counter = 1 / 4, acceleration_change = - (3 / 4), axis_ratio = 1,
      steps_to_move = 6, step_count = 4, next_accel_event = 6\<rparr>
     \<lparr>steps_per_tick = 3 / 8, counter = 1 / 8, acceleration_change = - (3 / 8), axis_ratio = 1 / 2,
      steps_to_move = 3, step_count = 2, next_accel_event = 6\<rparr>"
  using demo_tick [OF demo_5] unfolding demo_run_next(6) by (simp add: tick_eval)

lemma demo_7:
  "demo_facts (demo_run 7) 7
     \<lparr>steps_per_tick = 0, counter = 0, acceleration_change = - (3 / 4), axis_ratio = 1,
      steps_to_move = 6, step_count = 5, next_accel_event = 6\<rparr>
     \<lparr>steps_per_tick = 0, counter = 0, acceleration_change = - (3 / 8), axis_ratio = 1 / 2,
      steps_to_move = 0, step_count = 3, next_accel_event = 6\<rparr>"
  using demo_tick [OF demo_6] unfolding demo_run_next(7) by (simp add: tick_eval)

lemma demo_8:
  "demo_facts (demo_run 8) 8
     \<lparr>steps_per_tick = 0, counter = 0, acceleration_change = - (3 / 4), axis_ratio = 1,
      steps_to_move = 0, step_count = 6, next_accel_event = 6\<rparr>
     \<lparr>steps_per_tick = 0, counter = 0, acceleration_change = - (3 / 8), axis_ratio = 1 / 2,
      steps_to_move = 0, step_count = 3, next_accel_event = 6\<rparr>"
  using demo_tick [OF demo_7] unfolding demo_run_next(8) by (simp add: tick_eval)

lemma demo_still_active:
  assumes "demo_facts s ct ti0 ti1"
  shows "still_active s \<longleftrightarrow> steps_to_move ti0 \<noteq> 0 \<or> steps_to_move ti1 \<noteq> 0"
proof -
  have "{0..<2::nat} = {0, 1}" by auto
  with assms show ?thesis
    by (simp add: still_active_def demo_facts_def)
qed

lemma demo_active:
  "still_active (demo_run 0)" "still_active (demo_run 1)" "still_active (demo_run 2)"
  "still_active (demo_run 3)" "still_active (demo_run 4)" "still_active (demo_run 5)"
  "still_active (demo_run 6)" "still_active (demo_run 7)" "\<not> still_active (demo_run 8)"
  using demo_still_active [OF demo_0] demo_still_active [OF demo_1]
      demo_still_active [OF demo_2] demo_still_active [OF demo_3] demo_still_active [OF demo_4]
      demo_still_active [OF demo_5] demo_still_active [OF demo_6] demo_still_active [OF demo_7]
      demo_still_active [OF demo_8]
  by simp_all

lemma demo_guard:
  "guard_fires (demo_run 6) 0" "guard_fires (demo_run 6) 1" "guard_fires (demo_run 7) 0"
  using demo_6 demo_7
  by (simp_all add: guard_fires_def line_170_def accelerate_def accel_event_def demo_facts_def
      demo_info_def)

text \<open>The first tick of \<open>fast_block\<close>.\<close>

lemma fast_0:
  "demo_facts (copy_block rat_of_u32 fast_block demo_ticker) 0
     \<lparr>steps_per_tick = 5 / 2, counter = 0, acceleration_change = 1 / 4, axis_ratio = 1,
      steps_to_move = 6, step_count = 0, next_accel_event = 2\<rparr>
     \<lparr>steps_per_tick = 5 / 4, counter = 0, acceleration_change = 1 / 8, axis_ratio = 1 / 2,
      steps_to_move = 3, step_count = 0, next_accel_event = 2\<rparr>"
  by (simp add: demo_facts_def copy_block_frame copy_block_block_info
      copy_block_tick_info init_tickinfo_def aratio_def Let_def fast_block_def demo_block_def
      demo_ticker_def rat_of_u32_def demo_info_def)

lemma fast_1:
  "demo_facts (TIMER0_IRQHandler rat_of_u32 (copy_block rat_of_u32 fast_block demo_ticker)) 1
     \<lparr>steps_per_tick = 11 / 4, counter = 7 / 4, acceleration_change = 1 / 4, axis_ratio = 1,
      steps_to_move = 6, step_count = 1, next_accel_event = 2\<rparr>
     \<lparr>steps_per_tick = 11 / 8, counter = 3 / 8, acceleration_change = 1 / 8, axis_ratio = 1 / 2,
      steps_to_move = 3, step_count = 1, next_accel_event = 2\<rparr>"
  using demo_tick [OF fast_0] by (simp add: tick_eval)

subsection \<open>The run with a rate that is not a number\<close>



section \<open>The claims\<close>




text \<open>
  Claim C2 (exactly-once completion notification). The tick that finds no motor active
  requests PendSV once, but no tick changes \<open>do_move_finished\<close>
  (\<open>TIMER0_do_move_finished\<close>), the count that \<open>PendSV_IRQHandler\<close> requires to be
  positive before it calls \<open>finished_fnc\<close>: nothing in StepTicker.cpp increments it. The
  code evaluated where the concrete block is complete: the ninth tick requests PendSV, the
  count is still 0, and the PendSV handler returns without calling the registered callback.
\<close>

theorem completion_callback_not_invoked:
  "let s = demo_run 8; t = TIMER0_IRQHandler rat_of_u32 s; p = PendSV_IRQHandler t
   in move_issued s \<and> \<not> still_active s \<and> finished_fnc t \<and>
      count_list (trace t) PendSVSet = count_list (trace s) PendSVSet + 1 \<and>
      do_move_finished t = 0 \<and> p = t \<and>
      count_list (trace p) FinishedCall = count_list (trace s) FinishedCall"
proof -
  from demo_8 have f: "move_issued (demo_run 8)" "num_motors (demo_run 8) = 2"
    "tick_info (demo_run 8) 0 = \<lparr>steps_per_tick = 0, counter = 0, acceleration_change = - (3 / 4), axis_ratio = 1,
      steps_to_move = 0, step_count = 6, next_accel_event = 6\<rparr>"
    "tick_info (demo_run 8) 1 = \<lparr>steps_per_tick = 0, counter = 0, acceleration_change = - (3 / 8), axis_ratio = 1 / 2,
      steps_to_move = 0, step_count = 3, next_accel_event = 6\<rparr>"
    "next_block (demo_run 8) = Some demo_block" "do_move_finished (demo_run 8) = 0"
    "finished_fnc (demo_run 8)"
    by (simp_all add: demo_facts_def)
  from demo_8 have fin: "\<not> still_active (demo_run 8)"
    by (simp add: demo_still_active)
  have nc: "count_list (map (\<lambda>m. MotorSetDirection m (direction_bits b m)) xs) e = 0"
    if "e = PendSVSet \<or> e = FinishedCall" for xs e and b :: "rat block"
    using that by (induction xs) auto
  have tr: "count_list (trace (TIMER0_IRQHandler rat_of_u32 (demo_run 8))) PendSVSet =
              count_list (trace (demo_run 8)) PendSVSet + 1"
    "count_list (trace (TIMER0_IRQHandler rat_of_u32 (demo_run 8))) FinishedCall =
              count_list (trace (demo_run 8)) FinishedCall"
    by (simp_all add: finishing_tick_swap [OF f(1) fin f(5)] copy_block_trace nc)
  have dm: "do_move_finished (TIMER0_IRQHandler rat_of_u32 (demo_run 8)) = 0"
    by (simp add: TIMER0_do_move_finished f)
  have ff: "finished_fnc (TIMER0_IRQHandler rat_of_u32 (demo_run 8))"
    by (simp add: finishing_tick_swap [OF f(1) fin f(5)] copy_block_frame f)
  show ?thesis
    using f(1) fin tr dm ff by (simp add: Let_def PendSV_IRQHandler_def)
qed

text \<open>
  Claim C3 (motor registration capacity), as amended. \<open>register_motor\<close> stores the handle
  in slot \<open>num_motors\<close>, returns that index and increments \<open>num_motors\<close>; nothing else
  changes. It makes no capacity check: the write is inside a table of \<open>cap\<close> slots when
  \<open>num_motors < cap\<close> before the call, which is for the caller to ensure. The size of the
  table is declared in StepTicker.h, which is not among the sources, so it is the
  parameter \<open>cap\<close>.
\<close>

theorem register_motor_within_capacity:
  assumes "num_motors s < cap"
  shows "let i = fst (register_motor h s); s' = snd (register_motor h s)
         in i = num_motors s \<and> i < cap \<and> motor s' i = h \<and>
            (\<forall>j. j \<noteq> i \<longrightarrow> motor s' j = motor s j) \<and>
            num_motors s' = num_motors s + 1 \<and>
            s' = s\<lparr>motor := (motor s)(num_motors s := h), num_motors := num_motors s + 1\<rparr>"
  using assms by (simp add: register_motor_def Let_def)

text \<open>A table of three slots with two motors registered: the third gets index 2.\<close>

theorem register_motor_within_capacity_witness:
  "num_motors demo_ticker < 3 \<and>
   fst (register_motor 7 demo_ticker) = 2 \<and>
   motor (snd (register_motor 7 demo_ticker)) 2 = 7 \<and>
   motor (snd (register_motor 7 demo_ticker)) 1 = 101 \<and>
   num_motors (snd (register_motor 7 demo_ticker)) = 3"
  using register_motor_within_capacity [of demo_ticker 3 7]
  by (simp add: Let_def demo_ticker_def)

text \<open>
  The claim as stated fails. A table of two slots (0 and 1) is full; the call does not
  fail: it returns the index 2, writes the handle to cell 2, past the table, and counts
  three motors.
\<close>

theorem register_motor_full_table_counterexample:
  "num_motors demo_ticker = 2 \<and>
   \<not> fst (register_motor 7 demo_ticker) < 2 \<and>
   fst (register_motor 7 demo_ticker) = 2 \<and>
   motor demo_ticker 2 = 0 \<and>
   motor (snd (register_motor 7 demo_ticker)) 2 = 7 \<and>
   num_motors (snd (register_motor 7 demo_ticker)) = 3"
  by (simp add: register_motor_def Let_def demo_ticker_def)

text \<open>
  Claim C4 (plateau transition at the end of acceleration). For an active motor, in a tick
  whose number \<open>ct\<close> (after the increment of line 142) equals \<open>next_accel_event\<close>: if
  \<open>ct\<close> equals \<open>accelerate_until\<close>, the tick leaves \<open>acceleration_change\<close> 0 (unless it
  is also the start of the deceleration), sets \<open>next_accel_event\<close> to \<open>decelerate_after\<close>
  when \<open>decelerate_after < total_move_ticks\<close>, and in that case, unless \<open>ct\<close> also equals
  \<open>decelerate_after\<close>, recomputes \<open>steps_per_tick\<close> as
  \<open>axis_ratio * maximum_rate / frequency\<close> (the value with which line 170 is reached); if
  \<open>ct\<close> equals \<open>decelerate_after\<close>, it sets \<open>acceleration_change\<close> to
  \<open>- deceleration_per_tick * axis_ratio\<close>. Both tests are made inside the test
  \<open>current_tick == next_accel_event\<close> (line 153), as in section 4.3 of the specification.
  The rate \<open>v\<close> with which line 170 is reached is the rate of the motor when the tick
  returns, but for the rounding guard, which replaces a rate \<open>v \<le> 0\<close> by 0.
\<close>

theorem plateau_transition:
  fixes s :: "'f::{zero,one,plus,minus,uminus,times,inverse,ord} stepticker"
  assumes "move_issued s" "m < num_motors s" "steps_to_move (tick_info s m) \<noteq> 0"
    and "current_tick s + 1 = next_accel_event (tick_info s m)"
  shows "let ct = current_tick s + 1; bi = block_info s; ti = tick_info s m;
             ti' = tick_info (TIMER0_IRQHandler u2f s) m;
             v = (if bi_decelerate_after bi < bi_total_move_ticks bi \<and> ct \<noteq> bi_decelerate_after bi
                  then (axis_ratio ti * bi_maximum_rate bi) / frequency s
                  else steps_per_tick ti + acceleration_change ti)
         in (ct = bi_accelerate_until bi \<longrightarrow>
               acceleration_change ti' =
                 (if ct = bi_decelerate_after bi then (- bi_deceleration_per_tick bi) * axis_ratio ti
                  else 0) \<and>
               next_accel_event ti' =
                 (if bi_decelerate_after bi < bi_total_move_ticks bi then bi_decelerate_after bi
                  else next_accel_event ti) \<and>
               steps_per_tick (line_170 s m) = v \<and>
               steps_per_tick ti' = (if v \<le> 0 then 0 else v)) \<and>
            (ct = bi_decelerate_after bi \<longrightarrow>
               acceleration_change ti' = (- bi_deceleration_per_tick bi) * axis_ratio ti)"
  using assms(4)
  by (simp add: Let_def active_tick_info(1) [OF assms(1-3)] line_170_def accel_event_def
      rounding_guard_def)

text \<open>
  The second tick of \<open>fast_block\<close> ends the acceleration of motor 1: its rate, which
  would be 3/2 with the acceleration added, is set to the plateau rate 3/8. Tick 6 of the
  concrete block starts the deceleration of motor 1.
\<close>

theorem plateau_transition_witness:
  "move_issued (TIMER0_IRQHandler rat_of_u32 (copy_block rat_of_u32 fast_block demo_ticker)) \<and>
   1 < num_motors (TIMER0_IRQHandler rat_of_u32 (copy_block rat_of_u32 fast_block demo_ticker)) \<and>
   steps_to_move (tick_info (TIMER0_IRQHandler rat_of_u32 (copy_block rat_of_u32 fast_block demo_ticker)) 1) \<noteq> 0 \<and>
   current_tick (TIMER0_IRQHandler rat_of_u32 (copy_block rat_of_u32 fast_block demo_ticker)) + 1 =
     next_accel_event (tick_info (TIMER0_IRQHandler rat_of_u32 (copy_block rat_of_u32 fast_block demo_ticker)) 1) \<and>
   current_tick (TIMER0_IRQHandler rat_of_u32 (copy_block rat_of_u32 fast_block demo_ticker)) + 1 =
     bi_accelerate_until (block_info (TIMER0_IRQHandler rat_of_u32 (copy_block rat_of_u32 fast_block demo_ticker))) \<and>
   steps_per_tick (tick_info (TIMER0_IRQHandler rat_of_u32 (copy_block rat_of_u32 fast_block demo_ticker)) 1) +
     acceleration_change (tick_info (TIMER0_IRQHandler rat_of_u32 (copy_block rat_of_u32 fast_block demo_ticker)) 1) = 3 / 2 \<and>
   steps_per_tick (tick_info (TIMER0_IRQHandler rat_of_u32
     (TIMER0_IRQHandler rat_of_u32 (copy_block rat_of_u32 fast_block demo_ticker))) 1) = 3 / 8 \<and>
   acceleration_change (tick_info (TIMER0_IRQHandler rat_of_u32
     (TIMER0_IRQHandler rat_of_u32 (copy_block rat_of_u32 fast_block demo_ticker))) 1) = 0 \<and>
   next_accel_event (tick_info (TIMER0_IRQHandler rat_of_u32
     (TIMER0_IRQHandler rat_of_u32 (copy_block rat_of_u32 fast_block demo_ticker))) 1) = 6 \<and>
   move_issued (demo_run 5) \<and>
   current_tick (demo_run 5) + 1 = next_accel_event (tick_info (demo_run 5) 1) \<and>
   current_tick (demo_run 5) + 1 = bi_decelerate_after (block_info (demo_run 5)) \<and>
   acceleration_change (tick_info (TIMER0_IRQHandler rat_of_u32 (demo_run 5)) 1) = - (3 / 8)"
  using plateau_transition [where s = "TIMER0_IRQHandler rat_of_u32 (copy_block rat_of_u32 fast_block demo_ticker)"
      and m = 1 and ?u2f = rat_of_u32]
    plateau_transition [where s = "demo_run 5" and m = 1 and ?u2f = rat_of_u32] fast_1 demo_5
  by (simp add: demo_facts_def demo_info_def Let_def)



text \<open>
  Claim C6 (the rounding guard forces the step). The one law of float arithmetic used is
  \<open>1 \<le> 1 + 0\<close>. In a tick in which an active motor reaches line 170 with
  \<open>steps_per_tick \<le> 0\<close>, the tick leaves \<open>steps_per_tick = 0\<close> and \<open>counter = 1 + 0 - 1\<close>,
  calls \<open>step()\<close> once, sets the unstep bit and increments \<open>step_count\<close>; when that was
  the last step, the motor is done (\<open>steps_to_move = 0\<close>). Hence over \<open>k\<close> ticks in each
  of which the motor is active and the guard fires, the motor is stepped once per tick:
  \<open>k\<close> calls, and \<open>step_count\<close> grows by \<open>k\<close>. The handler returns a state in every
  case: there is no error to report.
\<close>

theorem rounding_guard_forces_step:
  assumes one: "(1::'f::{zero,one,plus,minus,uminus,times,inverse,ord}) \<le> 1 + 0"
    and m: "m < num_motors (s :: 'f stepticker)"
  shows "(move_issued s \<and> steps_to_move (tick_info s m) \<noteq> 0 \<and> guard_fires s m \<longrightarrow>
            (let ti = tick_info s m; s' = TIMER0_IRQHandler u2f s; ti' = tick_info s' m
             in steps_per_tick ti' = 0 \<and> counter ti' = (1 + 0) - 1 \<and>
                step_count ti' = step_count ti + 1 \<and>
                steps_to_move ti' = (if step_count ti + 1 = steps_to_move ti then 0 else steps_to_move ti) \<and>
                count_list (trace s') (MotorStep m) = count_list (trace s) (MotorStep m) + 1 \<and>
                m \<in> unstep s')) \<and>
         ((\<forall>j<k. move_issued ((TIMER0_IRQHandler u2f ^^ j) s) \<and>
                  steps_to_move (tick_info ((TIMER0_IRQHandler u2f ^^ j) s) m) \<noteq> 0 \<and>
                  guard_fires ((TIMER0_IRQHandler u2f ^^ j) s) m) \<longrightarrow>
            step_count (tick_info ((TIMER0_IRQHandler u2f ^^ k) s) m) =
              step_count (tick_info s m) + of_nat k \<and>
            count_list (trace ((TIMER0_IRQHandler u2f ^^ k) s)) (MotorStep m) =
              count_list (trace s) (MotorStep m) + k)"
proof (intro conjI impI)
  assume a: "move_issued s \<and> steps_to_move (tick_info s m) \<noteq> 0 \<and> guard_fires s m"
  then have act: "move_issued s" "steps_to_move (tick_info s m) \<noteq> 0" "guard_fires s m"
    by simp_all
  from guard_tick [OF one act(1) m act(2,3), of u2f]
  show "let ti = tick_info s m; s' = TIMER0_IRQHandler u2f s; ti' = tick_info s' m
             in steps_per_tick ti' = 0 \<and> counter ti' = (1 + 0) - 1 \<and>
                step_count ti' = step_count ti + 1 \<and>
                steps_to_move ti' = (if step_count ti + 1 = steps_to_move ti then 0 else steps_to_move ti) \<and>
                count_list (trace s') (MotorStep m) = count_list (trace s) (MotorStep m) + 1 \<and>
                m \<in> unstep s'"
    by (simp add: Let_def)
next
  assume each: "\<forall>j<k. move_issued ((TIMER0_IRQHandler u2f ^^ j) s) \<and>
                  steps_to_move (tick_info ((TIMER0_IRQHandler u2f ^^ j) s) m) \<noteq> 0 \<and>
                  guard_fires ((TIMER0_IRQHandler u2f ^^ j) s) m"
  from guard_ticks [OF one m each]
  show "step_count (tick_info ((TIMER0_IRQHandler u2f ^^ k) s) m) =
              step_count (tick_info s m) + of_nat k" by simp
  from guard_ticks [OF one m each]
  show "count_list (trace ((TIMER0_IRQHandler u2f ^^ k) s)) (MotorStep m) =
              count_list (trace s) (MotorStep m) + k" by simp
qed

text \<open>
  The concrete block: in tick 7 the rate of motor 1 has reached 0 and the guard forces its
  last step; the guard fires for motor 0 in ticks 7 and 8, which make its steps 5 and 6.
\<close>

theorem rounding_guard_forces_step_witness:
  "(1::rat) \<le> 1 + 0 \<and>
   move_issued (demo_run 6) \<and> steps_to_move (tick_info (demo_run 6) 1) = 3 \<and>
   step_count (tick_info (demo_run 6) 1) = 2 \<and> guard_fires (demo_run 6) 1 \<and>
   steps_per_tick (tick_info (TIMER0_IRQHandler rat_of_u32 (demo_run 6)) 1) = 0 \<and>
   counter (tick_info (TIMER0_IRQHandler rat_of_u32 (demo_run 6)) 1) = 0 \<and>
   step_count (tick_info (TIMER0_IRQHandler rat_of_u32 (demo_run 6)) 1) = 3 \<and>
   steps_to_move (tick_info (TIMER0_IRQHandler rat_of_u32 (demo_run 6)) 1) = 0 \<and>
   count_list (trace (TIMER0_IRQHandler rat_of_u32 (demo_run 6))) (MotorStep 1) =
     count_list (trace (demo_run 6)) (MotorStep 1) + 1 \<and>
   1 \<in> unstep (TIMER0_IRQHandler rat_of_u32 (demo_run 6)) \<and>
   guard_fires (demo_run 6) 0 \<and> guard_fires (TIMER0_IRQHandler rat_of_u32 (demo_run 6)) 0 \<and>
   step_count (tick_info (demo_run 6) 0) = 4 \<and>
   step_count (tick_info ((TIMER0_IRQHandler rat_of_u32 ^^ 2) (demo_run 6)) 0) = 6 \<and>
   count_list (trace ((TIMER0_IRQHandler rat_of_u32 ^^ 2) (demo_run 6))) (MotorStep 0) =
     count_list (trace (demo_run 6)) (MotorStep 0) + 2"
proof -
  have one: "(1::rat) \<le> 1 + 0" by simp
  have s6: "move_issued (demo_run 6)" "num_motors (demo_run 6) = 2"
    "steps_to_move (tick_info (demo_run 6) 0) = 6" "step_count (tick_info (demo_run 6) 0) = 4"
    "steps_to_move (tick_info (demo_run 6) 1) = 3" "step_count (tick_info (demo_run 6) 1) = 2"
    using demo_6 by (simp_all add: demo_facts_def)
  have s7: "move_issued (demo_run 7)" "steps_to_move (tick_info (demo_run 7) 0) = 6"
    using demo_7 by (simp_all add: demo_facts_def)
  have t7: "TIMER0_IRQHandler rat_of_u32 (demo_run 6) = demo_run 7"
    by (simp add: demo_run_next(7))
  have m0: "0 < num_motors (demo_run 6)" and m1: "1 < num_motors (demo_run 6)"
    by (simp_all add: s6)
  have each: "\<forall>j<2. move_issued ((TIMER0_IRQHandler rat_of_u32 ^^ j) (demo_run 6)) \<and>
      steps_to_move (tick_info ((TIMER0_IRQHandler rat_of_u32 ^^ j) (demo_run 6)) 0) \<noteq> 0 \<and>
      guard_fires ((TIMER0_IRQHandler rat_of_u32 ^^ j) (demo_run 6)) 0"
  proof (intro allI impI)
    fix j :: nat
    assume "j < 2"
    then have "j = 0 \<or> j = 1" by arith
    then show "move_issued ((TIMER0_IRQHandler rat_of_u32 ^^ j) (demo_run 6)) \<and>
      steps_to_move (tick_info ((TIMER0_IRQHandler rat_of_u32 ^^ j) (demo_run 6)) 0) \<noteq> 0 \<and>
      guard_fires ((TIMER0_IRQHandler rat_of_u32 ^^ j) (demo_run 6)) 0"
      using s6 s7 demo_guard by (auto simp: t7)
  qed
  from rounding_guard_forces_step [OF one m1, where ?u2f = rat_of_u32 and k = 0]
    s6 demo_guard(2)
  have a: "steps_per_tick (tick_info (TIMER0_IRQHandler rat_of_u32 (demo_run 6)) 1) = 0"
    "counter (tick_info (TIMER0_IRQHandler rat_of_u32 (demo_run 6)) 1) = 0"
    "step_count (tick_info (TIMER0_IRQHandler rat_of_u32 (demo_run 6)) 1) = 3"
    "steps_to_move (tick_info (TIMER0_IRQHandler rat_of_u32 (demo_run 6)) 1) = 0"
    "count_list (trace (TIMER0_IRQHandler rat_of_u32 (demo_run 6))) (MotorStep 1) =
       count_list (trace (demo_run 6)) (MotorStep 1) + 1"
    "1 \<in> unstep (TIMER0_IRQHandler rat_of_u32 (demo_run 6))"
    by (simp_all add: Let_def)
  from rounding_guard_forces_step [OF one m0, where ?u2f = rat_of_u32 and k = 2] each s6
  have b: "step_count (tick_info ((TIMER0_IRQHandler rat_of_u32 ^^ 2) (demo_run 6)) 0) = 6"
    "count_list (trace ((TIMER0_IRQHandler rat_of_u32 ^^ 2) (demo_run 6))) (MotorStep 0) =
       count_list (trace (demo_run 6)) (MotorStep 0) + 2"
    by simp_all
  from one s6 a b demo_guard show ?thesis
    by (simp add: t7)
qed

text \<open>
  Claim C7 (no idle gap). In the tick that finds no motor active while the mailbox holds
  a block \<open>b\<close>, the handler resets \<open>current_tick\<close> to 0, activates \<open>b\<close> with
  \<open>copy_block\<close>, empties the mailbox and requests PendSV, all in that tick. The next
  call of the handler is tick 1 of \<open>b\<close>: it advances every motor that has steps in \<open>b\<close>
  from the tick info \<open>copy_block\<close> gave it.
\<close>

theorem no_idle_gap:
  assumes "move_issued s" "\<not> still_active s" "next_block s = Some b"
  shows "let s' = TIMER0_IRQHandler u2f s; s'' = TIMER0_IRQHandler u2f s'
         in s' = emit PendSVSet
                   ((copy_block u2f b ((rearm_unstep (tick_start s))\<lparr>current_tick := 0\<rparr>))
                      \<lparr>next_block := None\<rparr>) \<and>
            current_tick s' = 0 \<and> next_block s' = None \<and> move_issued s' \<and>
            num_motors s' = num_motors s \<and>
            block_info s' = block_info (copy_block u2f b s) \<and>
            tick_info s' = tick_info (copy_block u2f b s) \<and>
            (\<forall>m<num_motors s. steps b m \<noteq> 0 \<longrightarrow>
               current_tick s'' = 1 \<and>
               tick_info s'' m =
                 snd (tick_motor 1 (block_info s') (frequency s) (tick_info s' m)))"
proof -
  let ?s' = "TIMER0_IRQHandler u2f s"
  have eq: "?s' = emit PendSVSet
                   ((copy_block u2f b ((rearm_unstep (tick_start s))\<lparr>current_tick := 0\<rparr>))
                      \<lparr>next_block := None\<rparr>)"
    by (rule finishing_tick_swap [OF assms])
  have ti: "tick_info ?s' = tick_info (copy_block u2f b s)"
    unfolding eq
    by (simp add: copy_block_tick_info_cong [of "(rearm_unstep (tick_start s))\<lparr>current_tick := 0\<rparr>" s])
  have fields: "current_tick ?s' = 0" "next_block ?s' = None" "move_issued ?s'"
    "num_motors ?s' = num_motors s" "frequency ?s' = frequency s"
    "block_info ?s' = block_info (copy_block u2f b s)"
    unfolding eq by (simp_all add: copy_block_frame copy_block_block_info)
  have next_tick: "current_tick (TIMER0_IRQHandler u2f ?s') = 1 \<and>
      tick_info (TIMER0_IRQHandler u2f ?s') m =
        snd (tick_motor 1 (block_info ?s') (frequency s) (tick_info ?s' m))"
    if m: "m < num_motors s" "steps b m \<noteq> 0" for m
  proof -
    from m have act: "steps_to_move (tick_info ?s' m) \<noteq> 0"
      by (simp add: ti copy_block_tick_info)
    with m fields have sa: "still_active ?s'" by (auto simp: still_active_def)
    from m act show ?thesis
      by (simp add: running_tick_fields [OF fields(3) sa] running_tick_frame [OF fields(3) sa] fields)
  qed
  show ?thesis
    using eq ti fields next_tick by (simp add: Let_def)
qed

text \<open>
  The concrete ticker after its block is complete, with the same block in the mailbox: the
  ninth tick activates it, the tenth is its first tick.
\<close>

theorem no_idle_gap_witness:
  "move_issued (demo_run 8) \<and> \<not> still_active (demo_run 8) \<and>
   next_block (demo_run 8) = Some demo_block \<and>
   current_tick (demo_run 8) = 8 \<and>
   current_tick (TIMER0_IRQHandler rat_of_u32 (demo_run 8)) = 0 \<and>
   next_block (TIMER0_IRQHandler rat_of_u32 (demo_run 8)) = None \<and>
   move_issued (TIMER0_IRQHandler rat_of_u32 (demo_run 8)) \<and>
   tick_info (TIMER0_IRQHandler rat_of_u32 (demo_run 8)) 0 =
     \<lparr>steps_per_tick = 1 / 4, counter = 0, acceleration_change = 1 / 4, axis_ratio = 1,
      steps_to_move = 6, step_count = 0, next_accel_event = 2\<rparr> \<and>
   current_tick (TIMER0_IRQHandler rat_of_u32 (TIMER0_IRQHandler rat_of_u32 (demo_run 8))) = 1 \<and>
   tick_info (TIMER0_IRQHandler rat_of_u32 (TIMER0_IRQHandler rat_of_u32 (demo_run 8))) 0 =
     \<lparr>steps_per_tick = 1 / 2, counter = 1 / 2, acceleration_change = 1 / 4, axis_ratio = 1,
      steps_to_move = 6, step_count = 0, next_accel_event = 2\<rparr>"
proof -
  have s8: "move_issued (demo_run 8)" "num_motors (demo_run 8) = 2"
    "next_block (demo_run 8) = Some demo_block" "current_tick (demo_run 8) = 8"
    "frequency (demo_run 8) = 4"
    using demo_8 by (simp_all add: demo_facts_def)
  have new: "tick_info (copy_block rat_of_u32 demo_block (demo_run 8)) 0 =
     \<lparr>steps_per_tick = 1 / 4, counter = 0, acceleration_change = 1 / 4, axis_ratio = 1,
      steps_to_move = 6, step_count = 0, next_accel_event = 2\<rparr>"
    "block_info (copy_block rat_of_u32 demo_block (demo_run 8)) = demo_info"
    "steps demo_block 0 \<noteq> 0"
    by (simp_all add: copy_block_tick_info copy_block_block_info s8 init_tickinfo_def aratio_def
        Let_def demo_block_def rat_of_u32_def demo_info_def)
  from no_idle_gap [OF s8(1) demo_active(9) s8(3), where ?u2f = rat_of_u32, unfolded Let_def]
  have c: "current_tick (TIMER0_IRQHandler rat_of_u32 (demo_run 8)) = 0"
    "next_block (TIMER0_IRQHandler rat_of_u32 (demo_run 8)) = None"
    "move_issued (TIMER0_IRQHandler rat_of_u32 (demo_run 8))"
    "tick_info (TIMER0_IRQHandler rat_of_u32 (demo_run 8)) =
       tick_info (copy_block rat_of_u32 demo_block (demo_run 8))"
    "block_info (TIMER0_IRQHandler rat_of_u32 (demo_run 8)) =
       block_info (copy_block rat_of_u32 demo_block (demo_run 8))"
    "\<forall>m<num_motors (demo_run 8). steps demo_block m \<noteq> 0 \<longrightarrow>
       current_tick (TIMER0_IRQHandler rat_of_u32 (TIMER0_IRQHandler rat_of_u32 (demo_run 8))) = 1 \<and>
       tick_info (TIMER0_IRQHandler rat_of_u32 (TIMER0_IRQHandler rat_of_u32 (demo_run 8))) m =
         snd (tick_motor 1 (block_info (TIMER0_IRQHandler rat_of_u32 (demo_run 8)))
                (frequency (demo_run 8)) (tick_info (TIMER0_IRQHandler rat_of_u32 (demo_run 8)) m))"
    by blast+
  have "(0::nat) < num_motors (demo_run 8)" by (simp add: s8)
  with c(6) new(3)
  have d: "current_tick (TIMER0_IRQHandler rat_of_u32 (TIMER0_IRQHandler rat_of_u32 (demo_run 8))) = 1"
    "tick_info (TIMER0_IRQHandler rat_of_u32 (TIMER0_IRQHandler rat_of_u32 (demo_run 8))) 0 =
         snd (tick_motor 1 (block_info (TIMER0_IRQHandler rat_of_u32 (demo_run 8)))
                (frequency (demo_run 8)) (tick_info (TIMER0_IRQHandler rat_of_u32 (demo_run 8)) 0))"
    by blast+
  show ?thesis
    using s8 demo_active(9) c(1-3)
    by (simp add: d c(4,5) new s8(5) tick_motor_def accelerate_def accel_event_def
        rounding_guard_def issue_step_def Let_def demo_info_def)
qed

text \<open>
  Claim C8 (idle ticks are no-ops). While \<open>move_issued\<close> is false, any number of calls
  of the handler changes nothing but the record of the interrupt acknowledgements (line
  138): no motor is stepped, and \<open>tick_info\<close>, \<open>block_info\<close>, the counters and \<open>unstep\<close>
  keep their values. \<open>move_issued\<close> becomes false when a block ends with an empty mailbox
  (\<open>finishing_tick_idle\<close>) and true again only in \<open>copy_block\<close>.
\<close>

theorem idle_ticks_are_noops:
  assumes "\<not> move_issued s"
  shows "(TIMER0_IRQHandler u2f ^^ n) s = s\<lparr>trace := trace s @ replicate n Tim0Ack\<rparr>"
proof (induction n)
  case 0
  show ?case by simp
next
  case (Suc n)
  have "\<not> move_issued (s\<lparr>trace := trace s @ replicate n Tim0Ack\<rparr>)"
    using assms by simp
  then show ?case
    by (simp add: Suc.IH idle_tick emit_def replicate_append_same)
qed

text \<open>Three ticks of the concrete ticker before any block is activated.\<close>

theorem idle_ticks_are_noops_witness:
  "\<not> move_issued demo_ticker \<and>
   (TIMER0_IRQHandler rat_of_u32 ^^ 3) demo_ticker =
     demo_ticker\<lparr>trace := [Tim0Ack, Tim0Ack, Tim0Ack]\<rparr>"
  using idle_ticks_are_noops [where s = demo_ticker and ?u2f = rat_of_u32 and n = 3]
  by (simp add: demo_ticker_def numeral_3_eq_3)

text \<open>
  Claim C9 (unstep expiry). \<open>unstep_tick\<close> calls \<open>unstep()\<close> on the motors below
  \<open>num_motors\<close> whose bit is set, in the order of their indices and once each, on no other
  motor, and then clears the whole set; nothing else changes.
\<close>

theorem unstep_tick_expiry:
  "unstep_tick s =
     s\<lparr>trace := trace s @ map MotorUnstep (filter (\<lambda>i. i \<in> unstep s) [0..<num_motors s]),
       unstep := {}\<rparr> \<and>
   (\<forall>i. count_list (map MotorUnstep (filter (\<lambda>i. i \<in> unstep s) [0..<num_motors s])) (MotorUnstep i) =
        (if i < num_motors s \<and> i \<in> unstep s then 1 else 0))"
proof -
  have fold: "fold unstep_motor ms t =
      t\<lparr>trace := trace t @ map MotorUnstep (filter (\<lambda>i. i \<in> unstep t) ms)\<rparr>" for ms and t :: "'a stepticker"
    by (induction ms arbitrary: t) (simp_all add: unstep_motor_def emit_def)
  have cnt: "count_list (map MotorUnstep xs) (MotorUnstep i) = count_list xs i" for xs i
    by (induction xs) auto
  show ?thesis
    by (simp add: unstep_tick_def fold cnt count_list_filter_distinct)
qed

text \<open>
  Claim C10 (at most one step per motor per tick). In one tick an active motor is stepped
  once if the accumulator reaches 1 and not at all otherwise, however large the
  accumulator is; \<open>step_count\<close> grows by 1 or stays, and when the step is made the
  accumulator is decreased by exactly 1, the rest being carried to the next tick.
\<close>

theorem at_most_one_step_per_tick:
  assumes "move_issued s" "m < num_motors s" "steps_to_move (tick_info s m) \<noteq> 0"
  shows "let s' = TIMER0_IRQHandler u2f s; ti = tick_info s m; ti' = tick_info s' m;
             pre = rounding_guard (line_170 s m);
             fired = (1 \<le> counter pre + steps_per_tick pre)
         in count_list (trace s') (MotorStep m) =
              count_list (trace s) (MotorStep m) + (if fired then 1 else 0) \<and>
            step_count ti' = (if fired then step_count ti + 1 else step_count ti) \<and>
            counter ti' =
              (if fired then (counter pre + steps_per_tick pre) - 1
               else counter pre + steps_per_tick pre)"
  by (simp add: Let_def active_tick_info [OF assms] issue_step_def line_170_def)

text \<open>
  The first tick of \<open>fast_block\<close>: the accumulator reaches 11/4; one step is made and 7/4 is
  carried over.
\<close>

theorem at_most_one_step_per_tick_witness:
  "move_issued (copy_block rat_of_u32 fast_block demo_ticker) \<and>
   0 < num_motors (copy_block rat_of_u32 fast_block demo_ticker) \<and>
   steps_to_move (tick_info (copy_block rat_of_u32 fast_block demo_ticker) 0) \<noteq> 0 \<and>
   counter (rounding_guard (line_170 (copy_block rat_of_u32 fast_block demo_ticker) 0)) +
     steps_per_tick (rounding_guard (line_170 (copy_block rat_of_u32 fast_block demo_ticker) 0)) = 11 / 4 \<and>
   count_list (trace (TIMER0_IRQHandler rat_of_u32 (copy_block rat_of_u32 fast_block demo_ticker)))
       (MotorStep 0) =
     count_list (trace (copy_block rat_of_u32 fast_block demo_ticker)) (MotorStep 0) + 1 \<and>
   step_count (tick_info (TIMER0_IRQHandler rat_of_u32 (copy_block rat_of_u32 fast_block demo_ticker)) 0) = 1 \<and>
   counter (tick_info (TIMER0_IRQHandler rat_of_u32 (copy_block rat_of_u32 fast_block demo_ticker)) 0) = 7 / 4"
proof -
  let ?s = "copy_block rat_of_u32 fast_block demo_ticker"
  have s: "move_issued ?s" "num_motors ?s = 2" "current_tick ?s = 0" "frequency ?s = 4"
    "block_info ?s = demo_info"
    "tick_info ?s 0 = \<lparr>steps_per_tick = 5 / 2, counter = 0, acceleration_change = 1 / 4,
      axis_ratio = 1, steps_to_move = 6, step_count = 0, next_accel_event = 2\<rparr>"
    by (simp_all add: copy_block_frame copy_block_block_info copy_block_tick_info
        init_tickinfo_def aratio_def Let_def fast_block_def demo_block_def demo_ticker_def
        rat_of_u32_def demo_info_def)
  have pre: "rounding_guard (line_170 ?s 0) =
      \<lparr>steps_per_tick = 11 / 4, counter = 0, acceleration_change = 1 / 4,
      axis_ratio = 1, steps_to_move = 6, step_count = 0, next_accel_event = 2\<rparr>"
    by (simp add: line_170_def s accelerate_def accel_event_def rounding_guard_def demo_info_def)
  from at_most_one_step_per_tick [where s = ?s and m = 0 and ?u2f = rat_of_u32] s pre
  show ?thesis by (simp add: Let_def)
qed

end
